theory Spec2Isabelle
  imports Main
begin

section \<open>Registering the default service worker (registerDefaultSw.ts)\<close>

text \<open>
  The file holds two functions: \<open>registerDefaultSw\<close>, which asks the host for a service worker
  registration, stores it on the messaging service and waits for it to become active, and
  \<open>waitForRegistrationActive\<close>, a promise that races a timer against the \<open>statechange\<close> events
  of the incoming worker. Both are asynchronous: the model makes the host's answers and the
  events that arrive while the promise is pending explicit inputs, and every handle the code
  holds (the promise, the timer, the handler slot of each worker) a field of a state record.
\<close>

subsection \<open>Host objects\<close>

text \<open>A \<open>ServiceWorker\<close> object is known by its identity; its \<open>onstatechange\<close> slot lives in the
  state below. A registration is read through its three worker slots (\<open>null\<close> is \<open>None\<close>).\<close>

type_synonym ServiceWorker = nat

record ServiceWorkerRegistration =
  active :: "ServiceWorker option"
  installing :: "ServiceWorker option"
  waiting :: "ServiceWorker option"

text \<open>A value that a promise rejects with, or that is thrown: an \<open>Error\<close> with its message, or
  any value that has no \<open>message\<close> (\<open>undefined\<close>, \<open>null\<close>, an object without that property).
  \<open>message_of e\<close> is \<open>(e as Error)?.message\<close>, with \<open>undefined\<close> as \<open>None\<close>.\<close>

datatype rejection = Error string | NoMessage

fun message_of :: "rejection \<Rightarrow> string option" where
  "message_of (Error m) = Some m"
| "message_of NoMessage = None"

subsection \<open>Constants and the error factory\<close>

text \<open>The three constants come from \<open>../util/constants\<close>, which is not part of the file: they are
  parameters of the model. The timeout is a number of milliseconds.\<close>

record constants =
  DEFAULT_REGISTRATION_TIMEOUT :: nat
  DEFAULT_SW_PATH :: string
  DEFAULT_SW_SCOPE :: string

text \<open>Modelled from the spec: the \<open>ErrorCode\<close> enumeration and \<open>ERROR_FACTORY\<close> of
  \<open>../util/errors\<close>. The file uses the member \<open>FAILED_DEFAULT_REGISTRATION\<close> (the spec's
  \<open>FailedDefaultRegistration\<close>); \<open>OTHER_CODE\<close> stands for the members it does not use.
  \<open>ERROR_FACTORY.create(code, {browserErrorMessage: m})\<close> builds the public error with that
  code and that context.\<close>

datatype ErrorCode = FAILED_DEFAULT_REGISTRATION | OTHER_CODE string

datatype thrown = HostError rejection | FirebaseError ErrorCode "string option"

definition ERROR_FACTORY_create :: "ErrorCode \<Rightarrow> string option \<Rightarrow> thrown" where
  "ERROR_FACTORY_create code browserErrorMessage = FirebaseError code browserErrorMessage"

subsection \<open>Numbers in template literals\<close>

text \<open>\<open>`${n}`\<close> applies \<open>Number::toString\<close> to the number \<open>n\<close>. For a safe integer (at most
  \<open>2^53 - 1\<close>) the result is its decimal digits, most significant first and without leading
  zeros. Larger numbers are outside the model (they are rounded to a double first and printed
  with the shortest digits that read back as that double, in exponent form from \<open>10^21\<close> on):
  nothing is said about their text.\<close>

definition MAX_SAFE_INTEGER :: nat where
  "MAX_SAFE_INTEGER = 9007199254740991"

definition digit :: "nat \<Rightarrow> char" where
  "digit d = ''0123456789'' ! d"

function decimal_digits :: "nat \<Rightarrow> string" where
  "decimal_digits n = (if n < 10 then [digit n] else decimal_digits (n div 10) @ [digit (n mod 10)])"
  by pat_completeness auto
termination
  by (relation "measure (\<lambda>n. n)") auto

declare decimal_digits.simps [simp del]

definition Number_toString :: "nat \<Rightarrow> string" where
  "Number_toString n = (if n \<le> MAX_SAFE_INTEGER then decimal_digits n else undefined)"

text \<open>Reading a numeral: the number that a string of decimal digits denotes. It is not part of
  the code; it says which number a printed text stands for.\<close>

definition digit_value :: "char \<Rightarrow> nat" where
  "digit_value c = of_char c - 48"

definition decimal_value :: "string \<Rightarrow> nat" where
  "decimal_value ds = foldl (\<lambda>v c. 10 * v + digit_value c) 0 ds"

subsection \<open>The state of one call of waitForRegistrationActive\<close>

datatype settlement = Pending | Fulfilled | Rejected rejection

text \<open>The timer behind \<open>rejectTimeout\<close>: armed by \<open>setTimeout\<close> with its delay in milliseconds,
  then either fired by the host or cleared by \<open>clearTimeout\<close>.\<close>

datatype timer = Armed nat | Fired | Cleared

text \<open>What an \<open>onstatechange\<close> slot can hold: the arrow function of line 81, a closure over
  \<open>incomingSw\<close> (and over this call's \<open>rejectTimeout\<close> and \<open>resolve\<close>), or a handler that other code
  put there before the call, which has no access to this call's promise and timer.\<close>

datatype handler = ForeignHandler nat | ActivationHandler ServiceWorker

record wait_state =
  promise :: settlement
  rejectTimeout :: timer
  onstatechange :: "ServiceWorker \<Rightarrow> handler option"
  settle_calls :: nat

text \<open>\<open>resolve()\<close> and \<open>reject(e)\<close> settle a pending promise and do nothing to a settled one;
  \<open>settle_calls\<close> counts how often the code called either. \<open>clearTimeout\<close> cancels an armed timer
  and does nothing to one that has fired or is cleared.\<close>

definition resolve :: "wait_state \<Rightarrow> wait_state" where
  "resolve st = st\<lparr>promise := (if promise st = Pending then Fulfilled else promise st),
                   settle_calls := Suc (settle_calls st)\<rparr>"

definition reject :: "rejection \<Rightarrow> wait_state \<Rightarrow> wait_state" where
  "reject e st = st\<lparr>promise := (if promise st = Pending then Rejected e else promise st),
                    settle_calls := Suc (settle_calls st)\<rparr>"

definition clearTimeout :: "wait_state \<Rightarrow> wait_state" where
  "clearTimeout st =
     st\<lparr>rejectTimeout :=
          (case rejectTimeout st of Armed delay \<Rightarrow> Cleared | Fired \<Rightarrow> Fired | Cleared \<Rightarrow> Cleared)\<rparr>"

definition timeout_message :: "nat \<Rightarrow> string" where
  "timeout_message ms = ''Service worker not registered after '' @ Number_toString ms @ '' ms''"

definition no_incoming_message :: string where
  "no_incoming_message = ''No incoming service worker found.''"

text \<open>The handlers found on the workers when the call starts.\<close>

definition foreign :: "(ServiceWorker \<Rightarrow> nat option) \<Rightarrow> ServiceWorker \<Rightarrow> handler option" where
  "foreign h = (\<lambda>w. map_option ForeignHandler (h w))"

subsection \<open>waitForRegistrationActive: the executor\<close>

text \<open>The body of the promise executor (lines 67 to 91), which runs to its end when the promise is
  created: \<open>setTimeout\<close> with the timeout as its delay, then
  \<open>incomingSw = registration.installing || registration.waiting\<close>,
  then the three branches in the source's order.\<close>

definition waitForRegistrationActive ::
  "nat \<Rightarrow> ServiceWorkerRegistration \<Rightarrow> (ServiceWorker \<Rightarrow> nat option) \<Rightarrow> wait_state" where
  "waitForRegistrationActive timeout registration h =
     (let st = \<lparr>promise = Pending, rejectTimeout = Armed timeout, onstatechange = foreign h,
                settle_calls = 0\<rparr>;
          incomingSw = (case installing registration of Some w \<Rightarrow> Some w | None \<Rightarrow> waiting registration)
      in if active registration \<noteq> None then resolve (clearTimeout st)
         else (case incomingSw of
                 Some sw \<Rightarrow> st\<lparr>onstatechange := (onstatechange st)(sw \<mapsto> ActivationHandler sw)\<rparr>
               | None \<Rightarrow> reject (Error no_incoming_message) (clearTimeout st)))"

subsection \<open>waitForRegistrationActive: what happens later\<close>

text \<open>Two things can call back into the promise after the executor has returned: the host fires
  the timer, or it dispatches a \<open>statechange\<close> event at a worker. \<open>StateChange w s\<close> is such an event
  at worker \<open>w\<close>, where \<open>s\<close> is what \<open>(ev.target as ServiceWorker)?.state\<close> evaluates to (\<open>None\<close> when
  it is \<open>undefined\<close>).\<close>

datatype event = TimerFires | StateChange ServiceWorker "string option"

text \<open>The timer's callback (lines 68 to 73) runs only if the timer is still armed.\<close>

definition timer_callback :: "nat \<Rightarrow> wait_state \<Rightarrow> wait_state" where
  "timer_callback timeout st = reject (Error (timeout_message timeout)) st"

text \<open>The arrow function of lines 81 to 87.\<close>

definition activation_handler :: "ServiceWorker \<Rightarrow> string option \<Rightarrow> wait_state \<Rightarrow> wait_state" where
  "activation_handler incomingSw target_state st =
     (if target_state = Some ''activated''
      then resolve (clearTimeout (st\<lparr>onstatechange := (onstatechange st)(incomingSw := None)\<rparr>))
      else st)"

fun step :: "nat \<Rightarrow> event \<Rightarrow> wait_state \<Rightarrow> wait_state" where
  "step timeout TimerFires st =
     (case rejectTimeout st of
        Armed delay \<Rightarrow> timer_callback timeout (st\<lparr>rejectTimeout := Fired\<rparr>)
      | Fired \<Rightarrow> st
      | Cleared \<Rightarrow> st)"
| "step timeout (StateChange w s) st =
     (case onstatechange st w of
        Some (ActivationHandler incomingSw) \<Rightarrow> activation_handler incomingSw s st
      | Some (ForeignHandler _) \<Rightarrow> st
      | None \<Rightarrow> st)"

primrec run :: "nat \<Rightarrow> event list \<Rightarrow> wait_state \<Rightarrow> wait_state" where
  "run timeout [] st = st"
| "run timeout (ev # evs) st = run timeout evs (step timeout ev st)"

subsection \<open>registerDefaultSw\<close>

text \<open>The messaging service: the field the function touches, and the rest of the object as the
  record's extension.\<close>

record MessagingService =
  swRegistration :: "ServiceWorkerRegistration option"

text \<open>The host as the function meets it: what \<open>navigator.serviceWorker.register\<close> answers for a
  path and a scope (\<open>Inl\<close> a rejection), what \<open>update()\<close> answers (\<open>Some\<close> a rejection), the
  handlers already on the workers, the events that arrive while the function awaits the
  activation, and the message of the \<open>TypeError\<close> the engine throws when the named property of
  \<open>undefined\<close> is read.\<close>

record host =
  register :: "string \<Rightarrow> string \<Rightarrow> rejection + ServiceWorkerRegistration"
  update :: "ServiceWorkerRegistration \<Rightarrow> rejection option"
  handlers :: "ServiceWorker \<Rightarrow> nat option"
  events :: "event list"
  TypeError_message :: "string \<Rightarrow> string"

text \<open>What the function does to the outside, in order: the calls to the host and the accesses
  to the messaging service.\<close>

datatype action =
    Register string string
  | PutSwRegistration ServiceWorkerRegistration
  | GetSwRegistration
  | Update ServiceWorkerRegistration
  | WaitForRegistrationActive ServiceWorkerRegistration

text \<open>The promise that \<open>registerDefaultSw\<close> returns, after the events of the host: fulfilled,
  rejected with a value, or still awaiting the activation.\<close>

datatype outcome = Returns | Throws thrown | Awaiting

record 'm result =
  outcome :: outcome
  messaging_after :: 'm
  trace :: "action list"
  floating :: "rejection option"

text \<open>\<open>p.catch(() => {})\<close>: a promise that is fulfilled whether \<open>p\<close> is fulfilled or rejected.\<close>

definition catch_ignore :: "rejection option \<Rightarrow> rejection option" where
  "catch_ignore p = (case p of None \<Rightarrow> None | Some e \<Rightarrow> None)"

text \<open>The \<open>catch\<close> block of lines 47 to 51.\<close>

definition catch_block :: "rejection \<Rightarrow> thrown" where
  "catch_block e = ERROR_FACTORY_create FAILED_DEFAULT_REGISTRATION (message_of e)"

text \<open>The function, statement by statement. \<open>floating\<close> is the promise of line 43, which nothing
  awaits. The two reads of \<open>messaging.swRegistration\<close> (lines 43 and 46) are reads of the object
  as it is after the assignment of line 31. Were the field \<open>undefined\<close> there, the read of
  \<open>update\<close>, or of \<open>installing\<close> in the executor, would throw a \<open>TypeError\<close> inside the \<open>try\<close>;
  the lemma \<open>registerDefaultSw_registered\<close> below shows that this never happens.\<close>

definition registerDefaultSw ::
  "constants \<Rightarrow> host \<Rightarrow> 'a MessagingService_scheme \<Rightarrow> 'a MessagingService_scheme result" where
  "registerDefaultSw k env messaging =
     (case register env (DEFAULT_SW_PATH k) (DEFAULT_SW_SCOPE k) of
        Inl e \<Rightarrow>
          \<lparr>outcome = Throws (catch_block e), messaging_after = messaging,
           trace = [Register (DEFAULT_SW_PATH k) (DEFAULT_SW_SCOPE k)], floating = None\<rparr>
      | Inr registration \<Rightarrow>
          (let messaging1 = messaging\<lparr>swRegistration := Some registration\<rparr>;
               tr1 = [Register (DEFAULT_SW_PATH k) (DEFAULT_SW_SCOPE k), PutSwRegistration registration,
                      GetSwRegistration]
           in case swRegistration messaging1 of
                None \<Rightarrow>
                  \<lparr>outcome = Throws (catch_block (Error (TypeError_message env ''update''))),
                   messaging_after = messaging1, trace = tr1, floating = None\<rparr>
              | Some r1 \<Rightarrow>
                  (let fl = catch_ignore (update env r1);
                       tr2 = tr1 @ [Update r1, GetSwRegistration]
                   in case swRegistration messaging1 of
                        None \<Rightarrow>
                          \<lparr>outcome = Throws (catch_block (Error (TypeError_message env ''installing''))),
                           messaging_after = messaging1, trace = tr2, floating = fl\<rparr>
                      | Some r2 \<Rightarrow>
                          \<lparr>outcome =
                             (case promise (run (DEFAULT_REGISTRATION_TIMEOUT k) (events env)
                                     (waitForRegistrationActive (DEFAULT_REGISTRATION_TIMEOUT k) r2
                                        (handlers env))) of
                                Fulfilled \<Rightarrow> Returns
                              | Rejected e \<Rightarrow> Throws (catch_block e)
                              | Pending \<Rightarrow> Awaiting),
                           messaging_after = messaging1,
                           trace = tr2 @ [WaitForRegistrationActive r2],
                           floating = fl\<rparr>)))"

text \<open>Two tests on the actions, to count the calls to the host.\<close>

fun is_Register :: "action \<Rightarrow> bool" where
  "is_Register (Register path scope) = True"
| "is_Register a = False"

fun is_WaitForRegistrationActive :: "action \<Rightarrow> bool" where
  "is_WaitForRegistrationActive (WaitForRegistrationActive registration) = True"
| "is_WaitForRegistrationActive a = False"

subsection \<open>The states a call can be in\<close>

text \<open>The proofs below show that a call is always in one of these states: settled by the
  executor itself (fulfilled or rejected), still observing the incoming worker, resolved by the
  observer, rejected by the timer, and rejected by the timer with the observer detached by a
  later activation.\<close>

definition settled_at_call :: "settlement \<Rightarrow> (ServiceWorker \<Rightarrow> nat option) \<Rightarrow> wait_state" where
  "settled_at_call p h =
     \<lparr>promise = p, rejectTimeout = Cleared, onstatechange = foreign h, settle_calls = 1\<rparr>"

definition observing :: "nat \<Rightarrow> (ServiceWorker \<Rightarrow> nat option) \<Rightarrow> ServiceWorker \<Rightarrow> wait_state" where
  "observing t h sw = \<lparr>promise = Pending, rejectTimeout = Armed t,
      onstatechange = (foreign h)(sw \<mapsto> ActivationHandler sw), settle_calls = 0\<rparr>"

definition activated :: "(ServiceWorker \<Rightarrow> nat option) \<Rightarrow> ServiceWorker \<Rightarrow> wait_state" where
  "activated h sw = \<lparr>promise = Fulfilled, rejectTimeout = Cleared,
      onstatechange = (foreign h)(sw := None), settle_calls = 1\<rparr>"

definition timed_out :: "nat \<Rightarrow> (ServiceWorker \<Rightarrow> nat option) \<Rightarrow> ServiceWorker \<Rightarrow> wait_state" where
  "timed_out t h sw = \<lparr>promise = Rejected (Error (timeout_message t)), rejectTimeout = Fired,
      onstatechange = (foreign h)(sw \<mapsto> ActivationHandler sw), settle_calls = 1\<rparr>"

definition timed_out_detached ::
  "nat \<Rightarrow> (ServiceWorker \<Rightarrow> nat option) \<Rightarrow> ServiceWorker \<Rightarrow> wait_state" where
  "timed_out_detached t h sw = \<lparr>promise = Rejected (Error (timeout_message t)), rejectTimeout = Fired,
      onstatechange = (foreign h)(sw := None), settle_calls = 2\<rparr>"

subsection \<open>Concrete inputs\<close>

text \<open>The values the examples below run on: sample values of the three constants (a timeout of
  10000 ms), workers with no handler on them, and a host that gives one answer to \<open>register\<close>
  and one to \<open>update\<close>.\<close>

definition example_constants :: constants where
  "example_constants = \<lparr>DEFAULT_REGISTRATION_TIMEOUT = 10000,
     DEFAULT_SW_PATH = ''/firebase-messaging-sw.js'',
     DEFAULT_SW_SCOPE = ''/firebase-cloud-messaging-push-scope''\<rparr>"

definition no_handlers :: "ServiceWorker \<Rightarrow> nat option" where
  "no_handlers = (\<lambda>w. None)"

definition host_of ::
  "rejection + ServiceWorkerRegistration \<Rightarrow> rejection option \<Rightarrow> event list \<Rightarrow> host" where
  "host_of answer upd evs =
     \<lparr>register = (\<lambda>path scope. answer), update = (\<lambda>registration. upd), handlers = no_handlers,
      events = evs,
      TypeError_message = (\<lambda>property. ''Cannot read properties of undefined: '' @ property)\<rparr>"

section \<open>Auxiliary facts\<close>

subsection \<open>A settled promise stays as it is\<close>

lemma promise_step_settled: "promise st \<noteq> Pending \<Longrightarrow> promise (step t ev st) = promise st"
  by (cases ev)
     (auto simp: timer_callback_def reject_def resolve_def clearTimeout_def activation_handler_def
           split: option.splits handler.splits timer.splits)

lemma promise_run_settled: "promise st \<noteq> Pending \<Longrightarrow> promise (run t evs st) = promise st"
  by (induction evs arbitrary: st) (simp_all add: promise_step_settled)

lemma run_append: "run t (evs @ evs') st = run t evs' (run t evs st)"
  by (induction evs arbitrary: st) simp_all

subsection \<open>Handlers of other code\<close>

lemma foreign_not_activation: "foreign h w \<noteq> Some (ActivationHandler sw)"
  by (cases "h w") (simp_all add: foreign_def)

lemma foreign_cases: "foreign h w = None \<or> (\<exists>n. foreign h w = Some (ForeignHandler n))"
  by (cases "h w") (simp_all add: foreign_def)

lemma step_other_worker:
  assumes "onstatechange st w = foreign h w"
  shows "step t (StateChange w s) st = st"
  using foreign_cases [of h w] assms by auto

lemma step_not_activated:
  "s \<noteq> Some ''activated'' \<Longrightarrow> step t (StateChange w s) st = st"
  by (simp add: activation_handler_def split: option.splits handler.splits)

lemma step_foreign_cleared:
  assumes "rejectTimeout st = Cleared" and "onstatechange st = foreign h"
  shows "step t ev st = st"
proof (cases ev)
  case TimerFires
  with assms show ?thesis by simp
next
  case (StateChange w s)
  from assms(2) have "onstatechange st w = foreign h w" by simp
  with StateChange show ?thesis by (simp only: step_other_worker)
qed

lemma run_foreign_cleared:
  assumes "rejectTimeout st = Cleared" and "onstatechange st = foreign h"
  shows "run t evs st = st"
  by (induction evs) (simp_all add: step_foreign_cleared [OF assms])

subsection \<open>The executor, branch by branch\<close>

lemma wait_active:
  "active registration = Some a \<Longrightarrow>
   waitForRegistrationActive t registration h = settled_at_call Fulfilled h"
  by (simp add: waitForRegistrationActive_def settled_at_call_def resolve_def clearTimeout_def)

lemma wait_none:
  "active registration = None \<Longrightarrow> installing registration = None \<Longrightarrow> waiting registration = None \<Longrightarrow>
   waitForRegistrationActive t registration h = settled_at_call (Rejected (Error no_incoming_message)) h"
  by (simp add: waitForRegistrationActive_def settled_at_call_def reject_def clearTimeout_def)

lemma wait_incoming:
  "active registration = None \<Longrightarrow>
   installing registration = Some sw \<or> (installing registration = None \<and> waiting registration = Some sw) \<Longrightarrow>
   waitForRegistrationActive t registration h = observing t h sw"
  by (auto simp: waitForRegistrationActive_def observing_def)

lemma wait_cases:
  "waitForRegistrationActive t registration h = settled_at_call Fulfilled h
   \<or> waitForRegistrationActive t registration h = settled_at_call (Rejected (Error no_incoming_message)) h
   \<or> (\<exists>sw. waitForRegistrationActive t registration h = observing t h sw)"
  by (auto simp: waitForRegistrationActive_def Let_def settled_at_call_def observing_def resolve_def
        reject_def clearTimeout_def split: option.splits)

subsection \<open>One event in each state\<close>

lemma run_settled_at_call: "run t evs (settled_at_call p h) = settled_at_call p h"
  by (rule run_foreign_cleared [where h = h]) (simp_all add: settled_at_call_def)

lemma step_observing_timer: "step t TimerFires (observing t h sw) = timed_out t h sw"
  by (simp add: observing_def timed_out_def timer_callback_def reject_def)

lemma step_observing_activated:
  "step t (StateChange sw (Some ''activated'')) (observing t h sw) = activated h sw"
  by (simp add: observing_def activated_def activation_handler_def resolve_def clearTimeout_def)

lemma step_observing_other:
  "w \<noteq> sw \<Longrightarrow> step t (StateChange w s) (observing t h sw) = observing t h sw"
  by (rule step_other_worker [where h = h]) (simp add: observing_def)

lemma step_observing:
  "step t ev (observing t h sw) = observing t h sw \<or> step t ev (observing t h sw) = activated h sw
   \<or> step t ev (observing t h sw) = timed_out t h sw"
proof (cases ev)
  case TimerFires
  then show ?thesis by (simp only: step_observing_timer simp_thms)
next
  case (StateChange w s)
  show ?thesis
  proof (cases "w = sw \<and> s = Some ''activated''")
    case True
    with StateChange show ?thesis by (simp only: step_observing_activated simp_thms)
  next
    case False
    with StateChange show ?thesis
      using step_observing_other [of w sw t s h] step_not_activated [of s t w "observing t h sw"]
      by auto
  qed
qed

lemma step_activated: "step t ev (activated h sw) = activated h sw"
proof (cases ev)
  case TimerFires
  then show ?thesis by (simp add: activated_def)
next
  case (StateChange w s)
  show ?thesis
  proof (cases "w = sw")
    case True
    with StateChange show ?thesis by (simp add: activated_def)
  next
    case False
    with StateChange show ?thesis
      by (simp only:) (rule step_other_worker [where h = h], simp add: activated_def)
  qed
qed

lemma step_timed_out_activated:
  "step t (StateChange sw (Some ''activated'')) (timed_out t h sw) = timed_out_detached t h sw"
  by (simp add: timed_out_def timed_out_detached_def activation_handler_def resolve_def clearTimeout_def)

lemma step_timed_out:
  "step t ev (timed_out t h sw) = timed_out t h sw
   \<or> step t ev (timed_out t h sw) = timed_out_detached t h sw"
proof (cases ev)
  case TimerFires
  then show ?thesis by (simp add: timed_out_def)
next
  case (StateChange w s)
  show ?thesis
  proof (cases "w = sw \<and> s = Some ''activated''")
    case True
    with StateChange show ?thesis by (simp only: step_timed_out_activated simp_thms)
  next
    case False
    have "w \<noteq> sw \<Longrightarrow> step t (StateChange w s) (timed_out t h sw) = timed_out t h sw"
      by (rule step_other_worker [where h = h]) (simp add: timed_out_def)
    with False StateChange show ?thesis
      using step_not_activated [of s t w "timed_out t h sw"] by auto
  qed
qed

lemma step_timed_out_detached: "step t ev (timed_out_detached t h sw) = timed_out_detached t h sw"
proof (cases ev)
  case TimerFires
  then show ?thesis by (simp add: timed_out_detached_def)
next
  case (StateChange w s)
  show ?thesis
  proof (cases "w = sw")
    case True
    with StateChange show ?thesis by (simp add: timed_out_detached_def)
  next
    case False
    with StateChange show ?thesis
      by (simp only:) (rule step_other_worker [where h = h], simp add: timed_out_detached_def)
  qed
qed

subsection \<open>Any number of events\<close>

lemma run_activated: "run t evs (activated h sw) = activated h sw"
  by (induction evs) (simp_all add: step_activated)

lemma run_timed_out_detached: "run t evs (timed_out_detached t h sw) = timed_out_detached t h sw"
  by (induction evs) (simp_all add: step_timed_out_detached)

lemma run_timed_out:
  "run t evs (timed_out t h sw) = timed_out t h sw
   \<or> run t evs (timed_out t h sw) = timed_out_detached t h sw"
proof (induction evs)
  case Nil
  then show ?case by simp
next
  case (Cons ev evs)
  from step_timed_out [of t ev h sw] show ?case
  proof
    assume "step t ev (timed_out t h sw) = timed_out t h sw"
    with Cons show ?thesis by simp
  next
    assume "step t ev (timed_out t h sw) = timed_out_detached t h sw"
    then show ?thesis by (simp add: run_timed_out_detached)
  qed
qed

lemma run_observing:
  "run t evs (observing t h sw) = observing t h sw \<or> run t evs (observing t h sw) = activated h sw
   \<or> run t evs (observing t h sw) = timed_out t h sw
   \<or> run t evs (observing t h sw) = timed_out_detached t h sw"
proof (induction evs)
  case Nil
  then show ?case by simp
next
  case (Cons ev evs)
  from step_observing [of t ev h sw]
  consider "step t ev (observing t h sw) = observing t h sw" | "step t ev (observing t h sw) = activated h sw"
    | "step t ev (observing t h sw) = timed_out t h sw" by blast
  then show ?case
  proof cases
    case 1
    with Cons show ?thesis by simp
  next
    case 2
    then show ?thesis by (simp add: run_activated)
  next
    case 3
    with run_timed_out [of t evs h sw] show ?thesis by auto
  qed
qed

lemma run_pending_observing:
  assumes "promise (run t evs (observing t h sw)) = Pending"
  shows "run t evs (observing t h sw) = observing t h sw"
  using run_observing [of t evs h sw] assms
  by (auto simp: activated_def timed_out_def timed_out_detached_def)

lemma run_other_workers:
  assumes "\<forall>ev \<in> set evs. \<exists>w s. ev = StateChange w s \<and> w \<noteq> sw"
  shows "run t evs (observing t h sw) = observing t h sw"
  using assms
proof (induction evs)
  case Nil
  then show ?case by simp
next
  case (Cons ev evs)
  then obtain w s where "ev = StateChange w s" "w \<noteq> sw" by auto
  then have "step t ev (observing t h sw) = observing t h sw"
    using step_observing_other by blast
  with Cons show ?case by simp
qed

lemma run_wait_cases:
  fixes t evs registration h
  defines "st \<equiv> run t evs (waitForRegistrationActive t registration h)"
  shows "st = settled_at_call Fulfilled h
   \<or> st = settled_at_call (Rejected (Error no_incoming_message)) h
   \<or> (\<exists>sw. st = observing t h sw \<or> st = activated h sw \<or> st = timed_out t h sw
          \<or> st = timed_out_detached t h sw)"
proof -
  from wait_cases [of t registration h]
  consider "waitForRegistrationActive t registration h = settled_at_call Fulfilled h"
    | "waitForRegistrationActive t registration h = settled_at_call (Rejected (Error no_incoming_message)) h"
    | sw where "waitForRegistrationActive t registration h = observing t h sw"
    by blast
  then show ?thesis
  proof cases
    case 1
    then show ?thesis by (simp add: st_def run_settled_at_call)
  next
    case 2
    then show ?thesis by (simp add: st_def run_settled_at_call)
  next
    case 3
    with run_observing [of t evs h sw] show ?thesis unfolding st_def by auto
  qed
qed

lemma pending_armed:
  assumes "promise (run t evs (waitForRegistrationActive t registration h)) = Pending"
  shows "\<exists>sw. run t evs (waitForRegistrationActive t registration h) = observing t h sw"
  using run_wait_cases [of t evs registration h] assms
  by (auto simp: settled_at_call_def activated_def timed_out_def timed_out_detached_def)

lemma timer_fired_settled:
  assumes "TimerFires \<in> set evs"
  shows "promise (run t evs (waitForRegistrationActive t registration h)) \<noteq> Pending"
proof -
  from assms obtain pre post where evs: "evs = pre @ TimerFires # post"
    by (auto simp: in_set_conv_decomp)
  let ?st = "run t pre (waitForRegistrationActive t registration h)"
  have "promise (step t TimerFires ?st) \<noteq> Pending"
  proof (cases "promise ?st = Pending")
    case True
    then obtain sw where "?st = observing t h sw" using pending_armed by blast
    then show ?thesis by (simp only: step_observing_timer) (simp add: timed_out_def)
  next
    case False
    from promise_step_settled [OF False, of t TimerFires] False show ?thesis
      by (simp del: step.simps)
  qed
  then show ?thesis by (simp add: evs run_append promise_run_settled)
qed

lemma rejected_reasons:
  assumes "promise (run t evs (waitForRegistrationActive t registration h)) = Rejected e"
  shows "e = Error (timeout_message t) \<or> e = Error ''No incoming service worker found.''"
  using run_wait_cases [of t evs registration h] assms
  by (auto simp: settled_at_call_def observing_def activated_def timed_out_def timed_out_detached_def
        no_incoming_message_def)

subsection \<open>Decimal digits\<close>

lemma below_ten:
  assumes "d < (10::nat)"
  shows "d = 0 \<or> d = 1 \<or> d = 2 \<or> d = 3 \<or> d = 4 \<or> d = 5 \<or> d = 6 \<or> d = 7 \<or> d = 8 \<or> d = 9"
  using assms by arith

lemma digit_value_digit: "d < 10 \<Longrightarrow> digit_value (digit d) = d"
  using below_ten [of d] by (auto simp: digit_def digit_value_def)

lemma digit_is_digit: "d < 10 \<Longrightarrow> digit d \<in> set ''0123456789''"
  using below_ten [of d] by (auto simp: digit_def)

lemma digit_zero: "d < 10 \<Longrightarrow> digit d = CHR ''0'' \<Longrightarrow> d = 0"
  using below_ten [of d] by (auto simp: digit_def)

lemma decimal_value_snoc: "decimal_value (ds @ [c]) = 10 * decimal_value ds + digit_value c"
  by (simp add: decimal_value_def)

lemma decimal_value_single: "decimal_value [c] = digit_value c"
  by (simp add: decimal_value_def)

lemma decimal_digits_value: "decimal_value (decimal_digits n) = n"
proof (induction n rule: decimal_digits.induct)
  case (1 n)
  show ?case
  proof (cases "n < 10")
    case True
    then show ?thesis
      by (simp add: decimal_digits.simps [of n] decimal_value_single digit_value_digit)
  next
    case False
    with "1" have "decimal_value (decimal_digits (n div 10)) = n div 10" by simp
    with False show ?thesis
      by (simp add: decimal_digits.simps [of n] decimal_value_snoc digit_value_digit)
  qed
qed

lemma decimal_digits_set: "set (decimal_digits n) \<subseteq> set ''0123456789''"
proof (induction n rule: decimal_digits.induct)
  case (1 n)
  show ?case
  proof (cases "n < 10")
    case True
    with digit_is_digit [of n] show ?thesis
      by (simp add: decimal_digits.simps [of n])
  next
    case False
    with "1" have "set (decimal_digits (n div 10)) \<subseteq> set ''0123456789''" by simp
    moreover have "digit (n mod 10) \<in> set ''0123456789''" by (rule digit_is_digit) simp
    ultimately show ?thesis using False
      by (simp add: decimal_digits.simps [of n])
  qed
qed

lemma decimal_digits_not_empty: "decimal_digits n \<noteq> []"
  by (simp add: decimal_digits.simps [of n])

lemma decimal_digits_no_leading_zero: "hd (decimal_digits n) = CHR ''0'' \<Longrightarrow> n = 0"
proof (induction n rule: decimal_digits.induct)
  case (1 n)
  show ?case
  proof (cases "n < 10")
    case True
    with "1.prems" have "digit n = CHR ''0''" by (simp add: decimal_digits.simps [of n])
    with True show ?thesis by (rule digit_zero)
  next
    case False
    with "1.prems" have "hd (decimal_digits (n div 10)) = CHR ''0''"
      by (simp add: decimal_digits.simps [of n] decimal_digits_not_empty)
    with "1.IH" False have "n div 10 = 0" by simp
    with False show ?thesis by simp
  qed
qed

subsection \<open>registerDefaultSw by the host's answer\<close>

lemma registerDefaultSw_rejected:
  assumes "register env (DEFAULT_SW_PATH k) (DEFAULT_SW_SCOPE k) = Inl e"
  shows "registerDefaultSw k env messaging =
           \<lparr>outcome = Throws (FirebaseError FAILED_DEFAULT_REGISTRATION (message_of e)),
            messaging_after = messaging,
            trace = [Register (DEFAULT_SW_PATH k) (DEFAULT_SW_SCOPE k)], floating = None\<rparr>"
  using assms by (simp add: registerDefaultSw_def catch_block_def ERROR_FACTORY_create_def)

lemma registerDefaultSw_registered:
  assumes "register env (DEFAULT_SW_PATH k) (DEFAULT_SW_SCOPE k) = Inr registration"
  shows "registerDefaultSw k env messaging =
           \<lparr>outcome =
              (case promise (run (DEFAULT_REGISTRATION_TIMEOUT k) (events env)
                       (waitForRegistrationActive (DEFAULT_REGISTRATION_TIMEOUT k) registration (handlers env))) of
                 Fulfilled \<Rightarrow> Returns
               | Rejected e \<Rightarrow> Throws (FirebaseError FAILED_DEFAULT_REGISTRATION (message_of e))
               | Pending \<Rightarrow> Awaiting),
            messaging_after = messaging\<lparr>swRegistration := Some registration\<rparr>,
            trace = [Register (DEFAULT_SW_PATH k) (DEFAULT_SW_SCOPE k), PutSwRegistration registration,
                     GetSwRegistration, Update registration, GetSwRegistration,
                     WaitForRegistrationActive registration],
            floating = None\<rparr>"
  using assms
  by (simp add: registerDefaultSw_def catch_block_def ERROR_FACTORY_create_def catch_ignore_def
        split: option.splits settlement.splits)

subsection \<open>Evaluating the examples\<close>

lemmas wait_defs = waitForRegistrationActive_def resolve_def reject_def clearTimeout_def
  timer_callback_def activation_handler_def no_incoming_message_def foreign_def no_handlers_def

lemmas example_defs = host_of_def example_constants_def

lemma Number_toString_10000: "Number_toString 10000 = ''10000''"
  by (simp add: Number_toString_def MAX_SAFE_INTEGER_def decimal_digits.simps [of 10000]
        decimal_digits.simps [of 1000] decimal_digits.simps [of 100] decimal_digits.simps [of 10]
        decimal_digits.simps [of "Suc 0"] digit_def)

section \<open>The properties\<close>

subsection \<open>registerDefaultSw: one public error\<close>

text \<open>C1. Whenever the registration request rejects with \<open>e\<close>, or the registration succeeds and
  the activation wait rejects with \<open>e\<close>, \<open>registerDefaultSw\<close> throws the error built for
  \<open>FAILED_DEFAULT_REGISTRATION\<close> with \<open>e\<close>'s message as its \<open>browserErrorMessage\<close>. Whatever the
  host does, anything the function throws has that code, and the function calls \<open>register\<close> once
  and \<open>waitForRegistrationActive\<close> at most once: nothing is tried a second time.\<close>

theorem registerDefaultSw_failure_is_wrapped:
  "(register env (DEFAULT_SW_PATH k) (DEFAULT_SW_SCOPE k) = Inl e
      \<or> (\<exists>registration. register env (DEFAULT_SW_PATH k) (DEFAULT_SW_SCOPE k) = Inr registration
            \<and> promise (run (DEFAULT_REGISTRATION_TIMEOUT k) (events env)
                 (waitForRegistrationActive (DEFAULT_REGISTRATION_TIMEOUT k) registration (handlers env)))
                = Rejected e)
     \<longrightarrow> outcome (registerDefaultSw k env messaging)
           = Throws (FirebaseError FAILED_DEFAULT_REGISTRATION (message_of e)))
   \<and> (\<forall>x. outcome (registerDefaultSw k env messaging) = Throws x
          \<longrightarrow> (\<exists>m. x = FirebaseError FAILED_DEFAULT_REGISTRATION m))
   \<and> length (filter is_Register (trace (registerDefaultSw k env messaging))) = 1
   \<and> length (filter is_WaitForRegistrationActive (trace (registerDefaultSw k env messaging))) \<le> 1"
proof (cases "register env (DEFAULT_SW_PATH k) (DEFAULT_SW_SCOPE k)")
  case (Inl e')
  show ?thesis by (simp add: registerDefaultSw_rejected [OF Inl] Inl)
next
  case (Inr registration)
  show ?thesis
    by (simp add: registerDefaultSw_registered [OF Inr] Inr split: settlement.splits)
qed

text \<open>A rejected \<open>register\<close>, and a registration whose installing worker never activates before
  the timer fires.\<close>

theorem registerDefaultSw_failure_is_wrapped_witness:
  "outcome (registerDefaultSw example_constants (host_of (Inl (Error ''SecurityError'')) None [])
       \<lparr>swRegistration = None\<rparr>)
     = Throws (FirebaseError FAILED_DEFAULT_REGISTRATION (Some ''SecurityError''))
   \<and> promise (run 10000 [TimerFires]
        (waitForRegistrationActive 10000 \<lparr>active = None, installing = Some 7, waiting = None\<rparr> no_handlers))
     = Rejected (Error (timeout_message 10000))
   \<and> outcome (registerDefaultSw example_constants
        (host_of (Inr \<lparr>active = None, installing = Some 7, waiting = None\<rparr>) None [TimerFires])
        \<lparr>swRegistration = None\<rparr>)
     = Throws (FirebaseError FAILED_DEFAULT_REGISTRATION (Some (timeout_message 10000)))"
proof -
  let ?env1 = "host_of (Inl (Error ''SecurityError'')) None []"
  let ?reg = "\<lparr>active = None, installing = Some 7, waiting = None\<rparr>"
  let ?env2 = "host_of (Inr ?reg) None [TimerFires]"
  let ?k = example_constants
  have h1: "register ?env1 (DEFAULT_SW_PATH ?k) (DEFAULT_SW_SCOPE ?k) = Inl (Error ''SecurityError'')"
    by (simp add: host_of_def)
  have p: "promise (run 10000 [TimerFires] (waitForRegistrationActive 10000 ?reg no_handlers))
             = Rejected (Error (timeout_message 10000))"
    by (simp add: wait_defs)
  have h2: "\<exists>registration. register ?env2 (DEFAULT_SW_PATH ?k) (DEFAULT_SW_SCOPE ?k) = Inr registration
      \<and> promise (run (DEFAULT_REGISTRATION_TIMEOUT ?k) (events ?env2)
           (waitForRegistrationActive (DEFAULT_REGISTRATION_TIMEOUT ?k) registration (handlers ?env2)))
          = Rejected (Error (timeout_message 10000))"
    using p by (simp add: example_defs del: run.simps step.simps)
  have a: "outcome (registerDefaultSw ?k ?env1 \<lparr>swRegistration = None\<rparr>)
             = Throws (FirebaseError FAILED_DEFAULT_REGISTRATION (message_of (Error ''SecurityError'')))"
    by (rule mp [OF conjunct1 [OF registerDefaultSw_failure_is_wrapped] disjI1 [OF h1]])
  have b: "outcome (registerDefaultSw ?k ?env2 \<lparr>swRegistration = None\<rparr>)
             = Throws (FirebaseError FAILED_DEFAULT_REGISTRATION (message_of (Error (timeout_message 10000))))"
    by (rule mp [OF conjunct1 [OF registerDefaultSw_failure_is_wrapped] disjI2 [OF h2]])
  from a b p show ?thesis by (simp del: run.simps step.simps)
qed

subsection \<open>waitForRegistrationActive: the three branches of the executor\<close>

text \<open>C2. When \<open>registration.active\<close> is set, the promise is fulfilled and the timer cleared by the
  executor itself, and no handler is put on any worker: the handler slots are the ones the call
  found, at once and after any events that follow, whatever \<open>installing\<close> and \<open>waiting\<close> hold.\<close>

theorem waitForRegistrationActive_active_resolves_at_once:
  assumes "active registration = Some a"
  shows "run t evs (waitForRegistrationActive t registration h) =
           \<lparr>promise = Fulfilled, rejectTimeout = Cleared, onstatechange = foreign h, settle_calls = 1\<rparr>"
  using wait_active [OF assms, of t h]
  by (simp add: run_settled_at_call) (simp add: settled_at_call_def)

theorem waitForRegistrationActive_active_resolves_at_once_witness:
  "active \<lparr>active = Some 3, installing = Some 7, waiting = Some 2\<rparr> = Some 3
   \<and> run 10000 [StateChange 7 (Some ''activated''), TimerFires]
        (waitForRegistrationActive 10000 \<lparr>active = Some 3, installing = Some 7, waiting = Some 2\<rparr> no_handlers)
      = \<lparr>promise = Fulfilled, rejectTimeout = Cleared, onstatechange = foreign no_handlers,
         settle_calls = 1\<rparr>"
  using waitForRegistrationActive_active_resolves_at_once
    [of "\<lparr>active = Some 3, installing = Some 7, waiting = Some 2\<rparr>" 3 10000
      "[StateChange 7 (Some ''activated''), TimerFires]" no_handlers]
  by (simp del: run.simps step.simps)

text \<open>C3. When none of \<open>active\<close>, \<open>installing\<close> and \<open>waiting\<close> is set, the executor itself rejects
  the promise with the error \<open>No incoming service worker found.\<close> and clears the timer; no event
  that follows, the timer's included, changes anything: there is no second call of \<open>reject\<close>.\<close>

theorem waitForRegistrationActive_no_worker_rejects_at_once:
  assumes "active registration = None" and "installing registration = None"
    and "waiting registration = None"
  shows "run t evs (waitForRegistrationActive t registration h) =
           \<lparr>promise = Rejected (Error ''No incoming service worker found.''), rejectTimeout = Cleared,
            onstatechange = foreign h, settle_calls = 1\<rparr>"
  using wait_none [OF assms, of t h]
  by (simp add: run_settled_at_call) (simp add: settled_at_call_def no_incoming_message_def)

theorem waitForRegistrationActive_no_worker_rejects_at_once_witness:
  "active \<lparr>active = None, installing = None, waiting = None\<rparr> = None
   \<and> installing \<lparr>active = None, installing = None, waiting = None\<rparr> = None
   \<and> waiting \<lparr>active = None, installing = None, waiting = None\<rparr> = None
   \<and> run 10000 [TimerFires]
        (waitForRegistrationActive 10000 \<lparr>active = None, installing = None, waiting = None\<rparr> no_handlers)
      = \<lparr>promise = Rejected (Error ''No incoming service worker found.''), rejectTimeout = Cleared,
         onstatechange = foreign no_handlers, settle_calls = 1\<rparr>"
  using waitForRegistrationActive_no_worker_rejects_at_once
    [of "\<lparr>active = None, installing = None, waiting = None\<rparr>" 10000 "[TimerFires]" no_handlers]
  by (simp del: run.simps step.simps)

text \<open>C4. Take a registration with no active worker and an incoming worker \<open>sw\<close> (the installing
  one, or the waiting one when none is installing), and any events after which the promise is
  still pending. A \<open>statechange\<close> event at \<open>sw\<close> whose state is \<open>activated\<close> then fulfils the promise,
  clears the timer and empties \<open>sw\<close>'s handler slot. An event at \<open>sw\<close> with any other state
  (\<open>undefined\<close> included) changes nothing: the promise stays pending and the handler stays.\<close>

theorem activation_handler_resolves_on_activated_only:
  assumes "active registration = None"
    and "installing registration = Some sw \<or> (installing registration = None \<and> waiting registration = Some sw)"
    and "st = run t evs (waitForRegistrationActive t registration h)"
    and "promise st = Pending"
  shows "promise (step t (StateChange sw (Some ''activated'')) st) = Fulfilled
       \<and> rejectTimeout (step t (StateChange sw (Some ''activated'')) st) = Cleared
       \<and> onstatechange (step t (StateChange sw (Some ''activated'')) st) sw = None
       \<and> (\<forall>s. s \<noteq> Some ''activated'' \<longrightarrow>
             promise (step t (StateChange sw s) st) = Pending
           \<and> onstatechange (step t (StateChange sw s) st) sw = Some (ActivationHandler sw)
           \<and> step t (StateChange sw s) st = st)"
proof -
  have "waitForRegistrationActive t registration h = observing t h sw"
    by (rule wait_incoming [OF assms(1,2)])
  with assms(3,4) have st: "st = observing t h sw"
    using run_pending_observing [of t evs h sw] by simp
  have "step t (StateChange sw (Some ''activated'')) st = activated h sw"
    by (simp only: st step_observing_activated)
  moreover have "\<And>s. s \<noteq> Some ''activated'' \<Longrightarrow> step t (StateChange sw s) st = st"
    by (rule step_not_activated)
  ultimately show ?thesis
    by (simp add: activated_def) (simp add: st observing_def)
qed

theorem activation_handler_resolves_on_activated_only_witness:
  "promise (run 10000 [StateChange 7 (Some ''installed'')]
      (waitForRegistrationActive 10000 \<lparr>active = None, installing = Some 7, waiting = None\<rparr> no_handlers))
     = Pending
   \<and> promise (step 10000 (StateChange 7 (Some ''activated''))
       (run 10000 [StateChange 7 (Some ''installed'')]
          (waitForRegistrationActive 10000 \<lparr>active = None, installing = Some 7, waiting = None\<rparr> no_handlers)))
     = Fulfilled
   \<and> promise (step 10000 (StateChange 7 (Some ''activating''))
       (run 10000 [StateChange 7 (Some ''installed'')]
          (waitForRegistrationActive 10000 \<lparr>active = None, installing = Some 7, waiting = None\<rparr> no_handlers)))
     = Pending"
proof -
  let ?reg = "\<lparr>active = None, installing = Some 7, waiting = None\<rparr>"
  let ?st = "run 10000 [StateChange 7 (Some ''installed'')] (waitForRegistrationActive 10000 ?reg no_handlers)"
  have h1: "active ?reg = None" by simp
  have h2: "installing ?reg = Some 7 \<or> (installing ?reg = None \<and> waiting ?reg = Some 7)" by simp
  have h4: "promise ?st = Pending" by (simp add: wait_defs)
  note th = activation_handler_resolves_on_activated_only [OF h1 h2 refl h4]
  have a: "promise (step 10000 (StateChange 7 (Some ''activated'')) ?st) = Fulfilled"
    by (rule conjunct1 [OF th])
  have ne: "Some ''activating'' \<noteq> Some ''activated''" by simp
  have b: "promise (step 10000 (StateChange 7 (Some ''activating'')) ?st) = Pending"
    by (rule conjunct1 [OF mp [OF spec [OF conjunct2 [OF conjunct2 [OF conjunct2 [OF th]]]] ne]])
  show ?thesis by (intro conjI h4 a b)
qed

subsection \<open>waitForRegistrationActive: the timer\<close>

text \<open>C5. If the promise is still pending after the events \<open>evs\<close>, then it was pending after every
  prefix of them and the timer is still armed with the configured timeout as its delay; when the
  timer fires next, the promise is rejected with the error whose message is
  \<open>Service worker not registered after \<close>, the text of the timeout and \<open> ms\<close>. For a timeout that
  is a safe integer that text is the timeout in decimal: it reads back as the timeout, consists
  of decimal digits only, and starts with \<open>0\<close> only when the timeout is 0.\<close>

theorem waitForRegistrationActive_timeout_rejects:
  assumes "promise (run t evs (waitForRegistrationActive t registration h)) = Pending"
    and "t \<le> MAX_SAFE_INTEGER"
  shows "(\<forall>n. promise (run t (take n evs) (waitForRegistrationActive t registration h)) = Pending)
       \<and> rejectTimeout (run t evs (waitForRegistrationActive t registration h)) = Armed t
       \<and> promise (run t (evs @ [TimerFires]) (waitForRegistrationActive t registration h))
           = Rejected (Error (''Service worker not registered after '' @ Number_toString t @ '' ms''))
       \<and> decimal_value (Number_toString t) = t
       \<and> set (Number_toString t) \<subseteq> set ''0123456789''
       \<and> Number_toString t \<noteq> []
       \<and> (hd (Number_toString t) = CHR ''0'' \<longrightarrow> t = 0)"
proof -
  let ?init = "waitForRegistrationActive t registration h"
  have "promise (run t (take n evs) ?init) = Pending" for n
  proof (rule ccontr)
    assume "promise (run t (take n evs) ?init) \<noteq> Pending"
    then have "promise (run t (drop n evs) (run t (take n evs) ?init)) \<noteq> Pending"
      by (simp add: promise_run_settled)
    then have "promise (run t (take n evs @ drop n evs) ?init) \<noteq> Pending"
      by (simp only: run_append simp_thms)
    with assms(1) show False by simp
  qed
  then have prefixes: "\<forall>n. promise (run t (take n evs) ?init) = Pending" by blast
  from assms(1) obtain sw where obs: "run t evs ?init = observing t h sw"
    using pending_armed by blast
  then have armed: "rejectTimeout (run t evs ?init) = Armed t"
    by (simp add: observing_def)
  have "run t (evs @ [TimerFires]) ?init = timed_out t h sw"
    by (simp add: run_append obs del: step.simps) (simp only: step_observing_timer)
  then have rejected: "promise (run t (evs @ [TimerFires]) ?init)
      = Rejected (Error (''Service worker not registered after '' @ Number_toString t @ '' ms''))"
    by (simp add: timed_out_def timeout_message_def)
  have digits: "Number_toString t = decimal_digits t"
    using assms(2) by (simp add: Number_toString_def)
  have "decimal_value (Number_toString t) = t"
    by (simp only: digits decimal_digits_value)
  moreover have "set (Number_toString t) \<subseteq> set ''0123456789''"
    by (simp only: digits decimal_digits_set)
  moreover have "Number_toString t \<noteq> []"
    by (simp only: digits decimal_digits_not_empty simp_thms)
  moreover have "hd (Number_toString t) = CHR ''0'' \<longrightarrow> t = 0"
    using decimal_digits_no_leading_zero [of t] by (simp only: digits) blast
  ultimately show ?thesis using prefixes armed rejected by blast
qed

text \<open>A timeout of 10000 ms, an installing worker that reports \<open>installed\<close>, then the timer.\<close>

theorem waitForRegistrationActive_timeout_rejects_witness:
  "promise (run 10000 [StateChange 7 (Some ''installed'')]
      (waitForRegistrationActive 10000 \<lparr>active = None, installing = Some 7, waiting = None\<rparr> no_handlers))
     = Pending
   \<and> (10000::nat) \<le> MAX_SAFE_INTEGER
   \<and> rejectTimeout (run 10000 [StateChange 7 (Some ''installed'')]
      (waitForRegistrationActive 10000 \<lparr>active = None, installing = Some 7, waiting = None\<rparr> no_handlers))
     = Armed 10000
   \<and> promise (run 10000 [StateChange 7 (Some ''installed''), TimerFires]
      (waitForRegistrationActive 10000 \<lparr>active = None, installing = Some 7, waiting = None\<rparr> no_handlers))
     = Rejected (Error ''Service worker not registered after 10000 ms'')
   \<and> decimal_value ''10000'' = 10000"
proof -
  let ?reg = "\<lparr>active = None, installing = Some 7, waiting = None\<rparr>"
  have h1: "promise (run 10000 [StateChange 7 (Some ''installed'')]
      (waitForRegistrationActive 10000 ?reg no_handlers)) = Pending"
    by (simp add: wait_defs)
  have h2: "(10000::nat) \<le> MAX_SAFE_INTEGER" by (simp add: MAX_SAFE_INTEGER_def)
  note th = waitForRegistrationActive_timeout_rejects [OF h1 h2]
  have a: "rejectTimeout (run 10000 [StateChange 7 (Some ''installed'')]
      (waitForRegistrationActive 10000 ?reg no_handlers)) = Armed 10000"
    by (rule conjunct1 [OF conjunct2 [OF th]])
  have b: "promise (run 10000 ([StateChange 7 (Some ''installed'')] @ [TimerFires])
      (waitForRegistrationActive 10000 ?reg no_handlers))
     = Rejected (Error (''Service worker not registered after '' @ Number_toString 10000 @ '' ms''))"
    by (rule conjunct1 [OF conjunct2 [OF conjunct2 [OF th]]])
  have c: "decimal_value (Number_toString 10000) = 10000"
    by (rule conjunct1 [OF conjunct2 [OF conjunct2 [OF conjunct2 [OF th]]]])
  from h1 h2 a b c show ?thesis
    by (simp add: Number_toString_10000 del: run.simps step.simps)
qed

subsection \<open>waitForRegistrationActive: which worker is observed\<close>

text \<open>C6. When a registration has no active worker, an installing worker \<open>i\<close> and a different
  waiting worker \<open>w\<close>, the handler goes on \<open>i\<close> only. \<open>statechange\<close> events at \<open>w\<close> alone, whatever
  their state, leave the promise pending and \<open>w\<close>'s slot as the call found it; the same event
  at \<open>i\<close> with state \<open>activated\<close> then fulfils the promise.\<close>

theorem waitForRegistrationActive_observes_installing_only:
  assumes "active registration = None" and "installing registration = Some i"
    and "waiting registration = Some w" and "i \<noteq> w"
    and "\<forall>ev \<in> set evs. \<exists>s. ev = StateChange w s"
  shows "promise (run t evs (waitForRegistrationActive t registration h)) = Pending
       \<and> onstatechange (run t evs (waitForRegistrationActive t registration h)) i = Some (ActivationHandler i)
       \<and> onstatechange (run t evs (waitForRegistrationActive t registration h)) w = foreign h w
       \<and> promise (run t (evs @ [StateChange i (Some ''activated'')]) (waitForRegistrationActive t registration h))
           = Fulfilled"
proof -
  have st0: "waitForRegistrationActive t registration h = observing t h i"
    using wait_incoming [OF assms(1), of i t h] assms(2) by simp
  have "\<forall>ev \<in> set evs. \<exists>w' s. ev = StateChange w' s \<and> w' \<noteq> i"
    using assms(4,5) by blast
  then have run: "run t evs (waitForRegistrationActive t registration h) = observing t h i"
    by (simp only: st0 run_other_workers)
  have "run t (evs @ [StateChange i (Some ''activated'')]) (waitForRegistrationActive t registration h)
          = activated h i"
    by (simp add: run_append run del: step.simps) (simp only: step_observing_activated)
  then show ?thesis using assms(4) by (simp add: run) (simp add: observing_def activated_def)
qed

theorem waitForRegistrationActive_observes_installing_only_witness:
  "promise (run 10000 [StateChange 2 (Some ''activated'')]
       (waitForRegistrationActive 10000 \<lparr>active = None, installing = Some 7, waiting = Some 2\<rparr> no_handlers))
     = Pending
   \<and> promise (run 10000 [StateChange 2 (Some ''activated''), StateChange 7 (Some ''activated'')]
       (waitForRegistrationActive 10000 \<lparr>active = None, installing = Some 7, waiting = Some 2\<rparr> no_handlers))
     = Fulfilled"
proof -
  let ?reg = "\<lparr>active = None, installing = Some 7, waiting = Some 2\<rparr>"
  have h: "\<forall>ev \<in> set [StateChange 2 (Some ''activated'')]. \<exists>s. ev = StateChange 2 s" by simp
  have "active ?reg = None" "installing ?reg = Some 7" "waiting ?reg = Some 2" "(7::nat) \<noteq> 2"
    by simp_all
  from waitForRegistrationActive_observes_installing_only [OF this h, of 10000 no_handlers]
  show ?thesis by (simp del: run.simps step.simps)
qed

subsection \<open>waitForRegistrationActive: the race\<close>

text \<open>C7 fails as it is stated. With an installing worker that stays silent, the timer fires and
  rejects the promise; the timer has then fired without any \<open>clearTimeout\<close>, and the handler of
  line 81 is still in the worker's \<open>onstatechange\<close> slot.\<close>

theorem timeout_path_counterexample:
  "promise (run 10000 [TimerFires]
      (waitForRegistrationActive 10000 \<lparr>active = None, installing = Some 7, waiting = None\<rparr> no_handlers))
     = Rejected (Error (timeout_message 10000))
   \<and> rejectTimeout (run 10000 [TimerFires]
      (waitForRegistrationActive 10000 \<lparr>active = None, installing = Some 7, waiting = None\<rparr> no_handlers))
     = Fired
   \<and> onstatechange (run 10000 [TimerFires]
      (waitForRegistrationActive 10000 \<lparr>active = None, installing = Some 7, waiting = None\<rparr> no_handlers)) 7
     = Some (ActivationHandler 7)"
  by (simp add: wait_defs)

text \<open>C7, amended. Let \<open>st\<close> be the state of a call after any events. The promise settles once:
  a settled promise is not changed by any later events, and it is settled as soon as the timer
  event is among the events. While it is pending the timer is armed and neither \<open>resolve\<close> nor
  \<open>reject\<close> has been called. When it is fulfilled, or rejected for want of an incoming worker, the
  timer is cleared, exactly one call of \<open>resolve\<close> or \<open>reject\<close> has been made, and no worker
  carries the activation handler. The only other settlement is the timer's: the rejection with
  the timeout message, with the timer fired rather than cleared.\<close>

theorem waitForRegistrationActive_settles_once:
  assumes "st = run t evs (waitForRegistrationActive t registration h)"
  shows "(promise st \<noteq> Pending \<longrightarrow> promise (run t evs' st) = promise st)
       \<and> (TimerFires \<in> set evs \<longrightarrow> promise st \<noteq> Pending)
       \<and> (promise st = Pending \<longrightarrow> rejectTimeout st = Armed t \<and> settle_calls st = 0)
       \<and> (promise st = Fulfilled \<longrightarrow>
            rejectTimeout st = Cleared \<and> settle_calls st = 1
          \<and> (\<forall>w sw. onstatechange st w \<noteq> Some (ActivationHandler sw)))
       \<and> (\<forall>e. promise st = Rejected e \<longrightarrow>
            (e = Error ''No incoming service worker found.'' \<and> rejectTimeout st = Cleared
               \<and> settle_calls st = 1 \<and> (\<forall>w sw. onstatechange st w \<noteq> Some (ActivationHandler sw)))
          \<or> (e = Error (timeout_message t) \<and> rejectTimeout st = Fired))"
proof -
  have a: "promise st \<noteq> Pending \<longrightarrow> promise (run t evs' st) = promise st"
    by (simp add: promise_run_settled)
  have b: "TimerFires \<in> set evs \<longrightarrow> promise st \<noteq> Pending"
    using timer_fired_settled assms by blast
  have noh: "\<And>w sw. (foreign h) w \<noteq> Some (ActivationHandler sw)"
    by (rule foreign_not_activation)
  have noh': "\<And>w sw x. ((foreign h)(x := None)) w \<noteq> Some (ActivationHandler sw)"
    using noh by simp
  from run_wait_cases [of t evs registration h]
  consider "st = settled_at_call Fulfilled h"
    | "st = settled_at_call (Rejected (Error no_incoming_message)) h"
    | sw where "st = observing t h sw" | sw where "st = activated h sw"
    | sw where "st = timed_out t h sw" | sw where "st = timed_out_detached t h sw"
    unfolding assms by blast
  then have c: "(promise st = Pending \<longrightarrow> rejectTimeout st = Armed t \<and> settle_calls st = 0)
       \<and> (promise st = Fulfilled \<longrightarrow>
            rejectTimeout st = Cleared \<and> settle_calls st = 1
          \<and> (\<forall>w sw. onstatechange st w \<noteq> Some (ActivationHandler sw)))
       \<and> (\<forall>e. promise st = Rejected e \<longrightarrow>
            (e = Error ''No incoming service worker found.'' \<and> rejectTimeout st = Cleared
               \<and> settle_calls st = 1 \<and> (\<forall>w sw. onstatechange st w \<noteq> Some (ActivationHandler sw)))
          \<or> (e = Error (timeout_message t) \<and> rejectTimeout st = Fired))"
  proof cases
    case 1
    then show ?thesis using noh by (simp add: settled_at_call_def)
  next
    case 2
    then show ?thesis using noh by (simp add: settled_at_call_def no_incoming_message_def)
  next
    case 3
    then show ?thesis by (simp add: observing_def)
  next
    case 4
    then show ?thesis using noh' by (simp add: activated_def)
  next
    case 5
    then show ?thesis by (simp add: timed_out_def)
  next
    case 6
    then show ?thesis by (simp add: timed_out_detached_def)
  qed
  from a b c show ?thesis by blast
qed

text \<open>Two runs with an installing worker. In the first it activates: the promise is fulfilled
  and stays so when the timer event comes, the timer is cleared, \<open>resolve\<close> has been called once
  and the handler is gone. In the second the timer fires first: the promise is settled.\<close>

theorem waitForRegistrationActive_settles_once_witness:
  "promise (run 10000 [StateChange 7 (Some ''activated'')]
      (waitForRegistrationActive 10000 \<lparr>active = None, installing = Some 7, waiting = None\<rparr> no_handlers))
     = Fulfilled
   \<and> promise (run 10000 [TimerFires] (run 10000 [StateChange 7 (Some ''activated'')]
      (waitForRegistrationActive 10000 \<lparr>active = None, installing = Some 7, waiting = None\<rparr> no_handlers)))
     = Fulfilled
   \<and> rejectTimeout (run 10000 [StateChange 7 (Some ''activated'')]
      (waitForRegistrationActive 10000 \<lparr>active = None, installing = Some 7, waiting = None\<rparr> no_handlers))
     = Cleared
   \<and> settle_calls (run 10000 [StateChange 7 (Some ''activated'')]
      (waitForRegistrationActive 10000 \<lparr>active = None, installing = Some 7, waiting = None\<rparr> no_handlers))
     = 1
   \<and> onstatechange (run 10000 [StateChange 7 (Some ''activated'')]
      (waitForRegistrationActive 10000 \<lparr>active = None, installing = Some 7, waiting = None\<rparr> no_handlers)) 7
     \<noteq> Some (ActivationHandler 7)
   \<and> TimerFires \<in> set [TimerFires]
   \<and> promise (run 10000 [TimerFires]
      (waitForRegistrationActive 10000 \<lparr>active = None, installing = Some 7, waiting = None\<rparr> no_handlers))
     \<noteq> Pending"
proof -
  let ?init = "waitForRegistrationActive 10000 \<lparr>active = None, installing = Some 7, waiting = None\<rparr> no_handlers"
  let ?st = "run 10000 [StateChange 7 (Some ''activated'')] ?init"
  have p: "promise ?st = Fulfilled" by (simp add: wait_defs)
  then have np: "promise ?st \<noteq> Pending" by simp
  note th = waitForRegistrationActive_settles_once
    [OF refl, of 10000 "[StateChange 7 (Some ''activated'')]" _ no_handlers "[TimerFires]"]
  note th' = waitForRegistrationActive_settles_once
    [OF refl, of 10000 "[TimerFires]" "\<lparr>active = None, installing = Some 7, waiting = None\<rparr>" no_handlers "[]"]
  have a: "promise (run 10000 [TimerFires] ?st) = promise ?st"
    by (rule mp [OF conjunct1 [OF th] np])
  have d: "rejectTimeout ?st = Cleared \<and> settle_calls ?st = 1
          \<and> (\<forall>w sw. onstatechange ?st w \<noteq> Some (ActivationHandler sw))"
    by (rule mp [OF conjunct1 [OF conjunct2 [OF conjunct2 [OF conjunct2 [OF th]]]] p])
  have m: "TimerFires \<in> set [TimerFires]" by simp
  have b: "promise (run 10000 [TimerFires] ?init) \<noteq> Pending"
    by (rule mp [OF conjunct1 [OF conjunct2 [OF th']] m])
  from p a d m b show ?thesis by (simp del: run.simps step.simps)
qed

subsection \<open>registerDefaultSw: the update request\<close>

text \<open>C8. What \<open>update()\<close> answers has no effect on \<open>registerDefaultSw\<close>: with any other answer
  \<open>u\<close> in its place the whole result is the same, and the promise of line 43, which nothing
  awaits, is fulfilled, so that no rejection is left unhandled. In particular, when the
  registration succeeds and the activation wait is fulfilled, the function returns whatever
  \<open>update()\<close> did.\<close>

theorem registerDefaultSw_update_outcome_discarded:
  "registerDefaultSw k (env\<lparr>update := u\<rparr>) messaging = registerDefaultSw k env messaging
   \<and> floating (registerDefaultSw k env messaging) = None
   \<and> (register env (DEFAULT_SW_PATH k) (DEFAULT_SW_SCOPE k) = Inr registration
        \<and> promise (run (DEFAULT_REGISTRATION_TIMEOUT k) (events env)
             (waitForRegistrationActive (DEFAULT_REGISTRATION_TIMEOUT k) registration (handlers env)))
            = Fulfilled
      \<longrightarrow> outcome (registerDefaultSw k (env\<lparr>update := u\<rparr>) messaging) = Returns)"
proof (cases "register env (DEFAULT_SW_PATH k) (DEFAULT_SW_SCOPE k)")
  case (Inl e)
  then have u: "register (env\<lparr>update := u\<rparr>) (DEFAULT_SW_PATH k) (DEFAULT_SW_SCOPE k) = Inl e"
    by simp
  show ?thesis
    by (simp add: registerDefaultSw_rejected [OF u] registerDefaultSw_rejected [OF Inl] Inl)
next
  case (Inr r)
  then have u: "register (env\<lparr>update := u\<rparr>) (DEFAULT_SW_PATH k) (DEFAULT_SW_SCOPE k) = Inr r"
    by simp
  show ?thesis
    by (simp add: registerDefaultSw_registered [OF u] registerDefaultSw_registered [OF Inr] Inr)
qed

text \<open>A registration that is already active, on a host whose \<open>update()\<close> rejects.\<close>

theorem registerDefaultSw_update_outcome_discarded_witness:
  "promise (run 10000 []
      (waitForRegistrationActive 10000 \<lparr>active = Some 3, installing = None, waiting = None\<rparr> no_handlers))
     = Fulfilled
   \<and> update (host_of (Inr \<lparr>active = Some 3, installing = None, waiting = None\<rparr>)
         (Some (Error ''offline'')) []) \<lparr>active = Some 3, installing = None, waiting = None\<rparr>
     = Some (Error ''offline'')
   \<and> outcome (registerDefaultSw example_constants
        (host_of (Inr \<lparr>active = Some 3, installing = None, waiting = None\<rparr>) (Some (Error ''offline'')) [])
        \<lparr>swRegistration = None\<rparr>)
     = Returns"
proof -
  let ?reg = "\<lparr>active = Some 3, installing = None, waiting = None\<rparr>"
  let ?env = "host_of (Inr ?reg) None []"
  let ?k = example_constants
  have p: "promise (run 10000 [] (waitForRegistrationActive 10000 ?reg no_handlers)) = Fulfilled"
    by (simp add: wait_defs)
  have h: "register ?env (DEFAULT_SW_PATH ?k) (DEFAULT_SW_SCOPE ?k) = Inr ?reg
      \<and> promise (run (DEFAULT_REGISTRATION_TIMEOUT ?k) (events ?env)
           (waitForRegistrationActive (DEFAULT_REGISTRATION_TIMEOUT ?k) ?reg (handlers ?env))) = Fulfilled"
    using p by (simp add: example_defs)
  have u: "?env\<lparr>update := update (host_of (Inr ?reg) (Some (Error ''offline'')) [])\<rparr>
             = host_of (Inr ?reg) (Some (Error ''offline'')) []"
    by (simp add: host_of_def)
  have "outcome (registerDefaultSw ?k
          (?env\<lparr>update := update (host_of (Inr ?reg) (Some (Error ''offline'')) [])\<rparr>)
          \<lparr>swRegistration = None\<rparr>) = Returns"
    by (rule mp [OF conjunct2 [OF conjunct2 [OF registerDefaultSw_update_outcome_discarded]] h])
  with p show ?thesis by (simp add: u del: run.simps) (simp add: host_of_def)
qed

subsection \<open>registerDefaultSw: the messaging service\<close>

text \<open>C9 fails as it is stated. When \<open>register\<close> rejects, the function touches the messaging
  service not at all: \<open>swRegistration\<close> is not written. When \<open>register\<close> succeeds, the function
  reads \<open>messaging.swRegistration\<close> twice, for the receiver of \<open>update()\<close> (line 43) and for the
  argument of \<open>waitForRegistrationActive\<close> (line 46).\<close>

theorem messaging_access_counterexample:
  "trace (registerDefaultSw example_constants (host_of (Inl (Error ''SecurityError'')) None [])
       \<lparr>swRegistration = None\<rparr>)
     = [Register ''/firebase-messaging-sw.js'' ''/firebase-cloud-messaging-push-scope'']
   \<and> messaging_after (registerDefaultSw example_constants (host_of (Inl (Error ''SecurityError'')) None [])
       \<lparr>swRegistration = None\<rparr>)
     = \<lparr>swRegistration = None\<rparr>
   \<and> trace (registerDefaultSw example_constants
        (host_of (Inr \<lparr>active = Some 3, installing = None, waiting = None\<rparr>) None [])
        \<lparr>swRegistration = None\<rparr>)
     = [Register ''/firebase-messaging-sw.js'' ''/firebase-cloud-messaging-push-scope'',
        PutSwRegistration \<lparr>active = Some 3, installing = None, waiting = None\<rparr>,
        GetSwRegistration,
        Update \<lparr>active = Some 3, installing = None, waiting = None\<rparr>,
        GetSwRegistration,
        WaitForRegistrationActive \<lparr>active = Some 3, installing = None, waiting = None\<rparr>]"
  by (simp add: registerDefaultSw_def example_defs)

text \<open>C9, amended. When \<open>register\<close> answers with a registration, the function writes one field
  of the messaging service, \<open>swRegistration\<close>, with that registration, before it calls \<open>update()\<close>
  and \<open>waitForRegistrationActive\<close>; its only reads of the messaging service are the two reads of
  that field after the write, so both calls go to the registration the host returned. When
  \<open>register\<close> rejects, the messaging service is neither written nor read. In both cases the other
  fields are unchanged, and the outcome and the actions are the same for any other messaging
  service \<open>messaging'\<close> the caller might have passed.\<close>

theorem registerDefaultSw_messaging_frame:
  "(register env (DEFAULT_SW_PATH k) (DEFAULT_SW_SCOPE k) = Inr registration \<longrightarrow>
       messaging_after (registerDefaultSw k env messaging) = messaging\<lparr>swRegistration := Some registration\<rparr>
     \<and> trace (registerDefaultSw k env messaging) =
         [Register (DEFAULT_SW_PATH k) (DEFAULT_SW_SCOPE k), PutSwRegistration registration,
          GetSwRegistration, Update registration, GetSwRegistration,
          WaitForRegistrationActive registration])
   \<and> (register env (DEFAULT_SW_PATH k) (DEFAULT_SW_SCOPE k) = Inl e \<longrightarrow>
       messaging_after (registerDefaultSw k env messaging) = messaging
     \<and> trace (registerDefaultSw k env messaging) = [Register (DEFAULT_SW_PATH k) (DEFAULT_SW_SCOPE k)])
   \<and> MessagingService.more (messaging_after (registerDefaultSw k env messaging))
       = MessagingService.more messaging
   \<and> outcome (registerDefaultSw k env messaging') = outcome (registerDefaultSw k env messaging)
   \<and> trace (registerDefaultSw k env messaging') = trace (registerDefaultSw k env messaging)"
proof (cases "register env (DEFAULT_SW_PATH k) (DEFAULT_SW_SCOPE k)")
  case (Inl e')
  show ?thesis by (simp add: registerDefaultSw_rejected [OF Inl] Inl)
next
  case (Inr r)
  show ?thesis by (simp add: registerDefaultSw_registered [OF Inr] Inr)
qed

text \<open>A messaging service that already holds a registration: a successful \<open>register\<close> replaces
  it, a rejected one leaves it.\<close>

theorem registerDefaultSw_messaging_frame_witness:
  "register (host_of (Inr \<lparr>active = Some 3, installing = None, waiting = None\<rparr>) None [])
      (DEFAULT_SW_PATH example_constants) (DEFAULT_SW_SCOPE example_constants)
     = Inr \<lparr>active = Some 3, installing = None, waiting = None\<rparr>
   \<and> messaging_after (registerDefaultSw example_constants
        (host_of (Inr \<lparr>active = Some 3, installing = None, waiting = None\<rparr>) None [])
        \<lparr>swRegistration = Some \<lparr>active = None, installing = None, waiting = None\<rparr>\<rparr>)
     = \<lparr>swRegistration = Some \<lparr>active = Some 3, installing = None, waiting = None\<rparr>\<rparr>
   \<and> register (host_of (Inl NoMessage) None [])
      (DEFAULT_SW_PATH example_constants) (DEFAULT_SW_SCOPE example_constants)
     = Inl NoMessage
   \<and> messaging_after (registerDefaultSw example_constants (host_of (Inl NoMessage) None [])
        \<lparr>swRegistration = Some \<lparr>active = None, installing = None, waiting = None\<rparr>\<rparr>)
     = \<lparr>swRegistration = Some \<lparr>active = None, installing = None, waiting = None\<rparr>\<rparr>"
proof -
  let ?reg = "\<lparr>active = Some 3, installing = None, waiting = None\<rparr>"
  let ?env = "host_of (Inr ?reg) None []"
  let ?env' = "host_of (Inl NoMessage) None []"
  let ?m = "\<lparr>swRegistration = Some \<lparr>active = None, installing = None, waiting = None\<rparr>\<rparr>"
  let ?k = example_constants
  have h: "register ?env (DEFAULT_SW_PATH ?k) (DEFAULT_SW_SCOPE ?k) = Inr ?reg"
    by (simp add: host_of_def)
  have h': "register ?env' (DEFAULT_SW_PATH ?k) (DEFAULT_SW_SCOPE ?k) = Inl NoMessage"
    by (simp add: host_of_def)
  have a: "messaging_after (registerDefaultSw ?k ?env ?m) = ?m\<lparr>swRegistration := Some ?reg\<rparr>"
    by (rule conjunct1 [OF mp [OF conjunct1 [OF registerDefaultSw_messaging_frame] h]])
  have b: "messaging_after (registerDefaultSw ?k ?env' ?m) = ?m"
    by (rule conjunct1 [OF mp [OF conjunct1 [OF conjunct2 [OF registerDefaultSw_messaging_frame]] h']])
  from a b h h' show ?thesis by simp
qed

subsection \<open>registerDefaultSw: no rollback\<close>

text \<open>C10. When \<open>register\<close> answers with a registration and the activation wait rejects with \<open>e\<close>
  (the timeout or the missing incoming worker, and nothing else), the function throws the
  \<open>FAILED_DEFAULT_REGISTRATION\<close> error with \<open>e\<close>'s message, and the messaging service it leaves
  behind holds that registration in \<open>swRegistration\<close>: the assignment of line 31 is not undone.\<close>

theorem registerDefaultSw_keeps_registration_on_failure:
  assumes "register env (DEFAULT_SW_PATH k) (DEFAULT_SW_SCOPE k) = Inr registration"
    and "promise (run (DEFAULT_REGISTRATION_TIMEOUT k) (events env)
           (waitForRegistrationActive (DEFAULT_REGISTRATION_TIMEOUT k) registration (handlers env)))
          = Rejected e"
  shows "outcome (registerDefaultSw k env messaging)
           = Throws (FirebaseError FAILED_DEFAULT_REGISTRATION (message_of e))
       \<and> swRegistration (messaging_after (registerDefaultSw k env messaging)) = Some registration
       \<and> messaging_after (registerDefaultSw k env messaging) = messaging\<lparr>swRegistration := Some registration\<rparr>
       \<and> (e = Error (timeout_message (DEFAULT_REGISTRATION_TIMEOUT k))
            \<or> e = Error ''No incoming service worker found.'')"
  using rejected_reasons [OF assms(2)]
  by (simp add: registerDefaultSw_registered [OF assms(1)] assms(2))

theorem registerDefaultSw_keeps_registration_on_failure_witness:
  "register (host_of (Inr \<lparr>active = None, installing = None, waiting = None\<rparr>) None [])
      (DEFAULT_SW_PATH example_constants) (DEFAULT_SW_SCOPE example_constants)
     = Inr \<lparr>active = None, installing = None, waiting = None\<rparr>
   \<and> promise (run 10000 []
        (waitForRegistrationActive 10000 \<lparr>active = None, installing = None, waiting = None\<rparr> no_handlers))
     = Rejected (Error ''No incoming service worker found.'')
   \<and> outcome (registerDefaultSw example_constants
        (host_of (Inr \<lparr>active = None, installing = None, waiting = None\<rparr>) None [])
        \<lparr>swRegistration = None\<rparr>)
     = Throws (FirebaseError FAILED_DEFAULT_REGISTRATION (Some ''No incoming service worker found.''))
   \<and> swRegistration (messaging_after (registerDefaultSw example_constants
        (host_of (Inr \<lparr>active = None, installing = None, waiting = None\<rparr>) None [])
        \<lparr>swRegistration = None\<rparr>))
     = Some \<lparr>active = None, installing = None, waiting = None\<rparr>"
proof -
  let ?reg = "\<lparr>active = None, installing = None, waiting = None\<rparr>"
  let ?env = "host_of (Inr ?reg) None []"
  let ?k = example_constants
  have h1: "register ?env (DEFAULT_SW_PATH ?k) (DEFAULT_SW_SCOPE ?k) = Inr ?reg"
    by (simp add: host_of_def)
  have p: "promise (run 10000 [] (waitForRegistrationActive 10000 ?reg no_handlers))
             = Rejected (Error ''No incoming service worker found.'')"
    by (simp add: wait_defs)
  have h2: "promise (run (DEFAULT_REGISTRATION_TIMEOUT ?k) (events ?env)
           (waitForRegistrationActive (DEFAULT_REGISTRATION_TIMEOUT ?k) ?reg (handlers ?env)))
          = Rejected (Error ''No incoming service worker found.'')"
    using p by (simp add: example_defs)
  note th = registerDefaultSw_keeps_registration_on_failure [OF h1 h2, of "\<lparr>swRegistration = None\<rparr>"]
  from th h1 p show ?thesis by (simp del: run.simps)
qed

end
